theory Spec2Isabelle
  imports Complex_Main "HOL-Library.Char_ord" "HOL-Library.List_Lexorder"
begin

section \<open>The data model (package model)\<close>

text \<open>
  \<^verbatim>\<open>WeatherData\<close> is the unit that travels through the stream, the table and the cache.
  \<^verbatim>\<open>Temp\<close> is a \<^verbatim>\<open>float64\<close> that the code only copies and never computes with, so it
  is held as a real number; \<^verbatim>\<open>Timestamp\<close> is a \<^verbatim>\<open>time.Time\<close>, held as a number of
  clock ticks. A Go string is a sequence of bytes, as a \<^typ>\<open>string\<close> is here.
\<close>

record WeatherData =
  City :: string
  Temp :: real
  Condition :: string
  Provider :: string
  Timestamp :: int

record WeatherResponse = WeatherData +
  Cached :: bool

record CitiesResponse =
  Cities :: "string list"
  Total :: nat

record ErrorResponse =
  Error :: string
  Message :: string

text \<open>
  What a handler writes to the client: the status code and the JSON-encoded value
  (\<^verbatim>\<open>sendJSON\<close>, \<^verbatim>\<open>sendError\<close>). \<^verbatim>\<open>StatusJSON\<close> is the map
  \<^verbatim>\<open>{"status": ...}\<close> of the PUT handler.
\<close>

datatype reply =
    WeatherJSON WeatherResponse
  | CitiesJSON CitiesResponse
  | ErrorJSON ErrorResponse
  | StatusJSON string

type_synonym response = "nat \<times> reply"

definition sendJSON :: "nat \<Rightarrow> reply \<Rightarrow> response" where
  "sendJSON status data = (status, data)"

definition sendError :: "nat \<Rightarrow> string \<Rightarrow> string \<Rightarrow> response" where
  "sendError status errorMsg details =
     (status, ErrorJSON \<lparr>Error = errorMsg, Message = details\<rparr>)"

definition with_cached :: "WeatherData \<Rightarrow> bool \<Rightarrow> WeatherResponse" where
  \<comment> \<open>\<^verbatim>\<open>model.WeatherResponse{WeatherData: d, Cached: b}\<close>\<close>
  "with_cached d b =
     \<lparr>City = City d, Temp = Temp d, Condition = Condition d, Provider = Provider d,
      Timestamp = Timestamp d, Cached = b\<rparr>"

section \<open>Message texts\<close>

text \<open>
  The texts of the source are Russian; they are given here as their UTF-8 bytes, which
  is what the Go string literals hold.
\<close>

definition msg_city_not_found :: string where
  \<comment> \<open>handlers/weather.go:67, the error field of the 404 reply\<close>
  "msg_city_not_found =
   [CHR 0xD0, CHR 0x93, CHR 0xD0, CHR 0xBE, CHR 0xD1, CHR 0x80, CHR 0xD0, CHR 0xBE,
    CHR 0xD0, CHR 0xB4, CHR 0x20, CHR 0xD0, CHR 0xBD, CHR 0xD0, CHR 0xB5, CHR 0x20,
    CHR 0xD0, CHR 0xBD, CHR 0xD0, CHR 0xB0, CHR 0xD0, CHR 0xB9, CHR 0xD0, CHR 0xB4,
    CHR 0xD0, CHR 0xB5, CHR 0xD0, CHR 0xBD]"

definition msg_internal :: string where
  \<comment> \<open>handlers/weather.go:119\<close>
  "msg_internal =
   [CHR 0xD0, CHR 0x92, CHR 0xD0, CHR 0xBD, CHR 0xD1, CHR 0x83, CHR 0xD1, CHR 0x82,
    CHR 0xD1, CHR 0x80, CHR 0xD0, CHR 0xB5, CHR 0xD0, CHR 0xBD, CHR 0xD0, CHR 0xBD,
    CHR 0xD1, CHR 0x8F, CHR 0xD1, CHR 0x8F, CHR 0x20, CHR 0xD0, CHR 0xBE, CHR 0xD1,
    CHR 0x88, CHR 0xD0, CHR 0xB8, CHR 0xD0, CHR 0xB1, CHR 0xD0, CHR 0xBA, CHR 0xD0,
    CHR 0xB0, CHR 0x20, CHR 0xD1, CHR 0x81, CHR 0xD0, CHR 0xB5, CHR 0xD1, CHR 0x80,
    CHR 0xD0, CHR 0xB2, CHR 0xD0, CHR 0xB5, CHR 0xD1, CHR 0x80, CHR 0xD0, CHR 0xB0]"

definition msg_save_failed :: string where
  \<comment> \<open>handlers/weather.go:162\<close>
  "msg_save_failed =
   [CHR 0xD0, CHR 0x9E, CHR 0xD1, CHR 0x88, CHR 0xD0, CHR 0xB8, CHR 0xD0, CHR 0xB1,
    CHR 0xD0, CHR 0xBA, CHR 0xD0, CHR 0xB0, CHR 0x20, CHR 0xD1, CHR 0x81, CHR 0xD0,
    CHR 0xBE, CHR 0xD1, CHR 0x85, CHR 0xD1, CHR 0x80, CHR 0xD0, CHR 0xB0, CHR 0xD0,
    CHR 0xBD, CHR 0xD0, CHR 0xB5, CHR 0xD0, CHR 0xBD, CHR 0xD0, CHR 0xB8, CHR 0xD1,
    CHR 0x8F]"

definition msg_bad_json :: string where
  \<comment> \<open>handlers/weather.go:150\<close>
  "msg_bad_json =
   [CHR 0xD0, CHR 0x9D, CHR 0xD0, CHR 0xB5, CHR 0xD0, CHR 0xB2, CHR 0xD0, CHR 0xB5,
    CHR 0xD1, CHR 0x80, CHR 0xD0, CHR 0xBD, CHR 0xD1, CHR 0x8B, CHR 0xD0, CHR 0xB9,
    CHR 0x20, CHR 0xD1, CHR 0x84, CHR 0xD0, CHR 0xBE, CHR 0xD1, CHR 0x80, CHR 0xD0,
    CHR 0xBC, CHR 0xD0, CHR 0xB0, CHR 0xD1, CHR 0x82, CHR 0x20, CHR 0x4A, CHR 0x53,
    CHR 0x4F, CHR 0x4E]"

definition err_save_prefix :: string where
  \<comment> \<open>storage Save, before the city\<close>
  "err_save_prefix =
   [CHR 0xD0, CHR 0xBE, CHR 0xD1, CHR 0x88, CHR 0xD0, CHR 0xB8, CHR 0xD0, CHR 0xB1,
    CHR 0xD0, CHR 0xBA, CHR 0xD0, CHR 0xB0, CHR 0x20, CHR 0xD1, CHR 0x81, CHR 0xD0,
    CHR 0xBE, CHR 0xD1, CHR 0x85, CHR 0xD1, CHR 0x80, CHR 0xD0, CHR 0xB0, CHR 0xD0,
    CHR 0xBD, CHR 0xD0, CHR 0xB5, CHR 0xD0, CHR 0xBD, CHR 0xD0, CHR 0xB8, CHR 0xD1,
    CHR 0x8F, CHR 0x20, CHR 0xD0, CHR 0xBF, CHR 0xD0, CHR 0xBE, CHR 0xD0, CHR 0xB3,
    CHR 0xD0, CHR 0xBE, CHR 0xD0, CHR 0xB4, CHR 0xD1, CHR 0x8B, CHR 0x20, CHR 0xD0,
    CHR 0xB4, CHR 0xD0, CHR 0xBB, CHR 0xD1, CHR 0x8F, CHR 0x20]"

definition err_city_prefix :: string where
  \<comment> \<open>storage GetByCity, before the city\<close>
  "err_city_prefix =
   [CHR 0xD0, CHR 0xB3, CHR 0xD0, CHR 0xBE, CHR 0xD1, CHR 0x80, CHR 0xD0, CHR 0xBE,
    CHR 0xD0, CHR 0xB4, CHR 0x20]"

definition err_city_suffix :: string where
  \<comment> \<open>storage GetByCity, after the city\<close>
  "err_city_suffix =
   [CHR 0x20, CHR 0xD0, CHR 0xBD, CHR 0xD0, CHR 0xB5, CHR 0x20, CHR 0xD0, CHR 0xBD,
    CHR 0xD0, CHR 0xB0, CHR 0xD0, CHR 0xB9, CHR 0xD0, CHR 0xB4, CHR 0xD0, CHR 0xB5,
    CHR 0xD0, CHR 0xBD]"

definition err_get_prefix :: string where
  \<comment> \<open>storage GetByCity, before the driver's error\<close>
  "err_get_prefix =
   [CHR 0xD0, CHR 0xBE, CHR 0xD1, CHR 0x88, CHR 0xD0, CHR 0xB8, CHR 0xD0, CHR 0xB1,
    CHR 0xD0, CHR 0xBA, CHR 0xD0, CHR 0xB0, CHR 0x20, CHR 0xD0, CHR 0xBF, CHR 0xD0,
    CHR 0xBE, CHR 0xD0, CHR 0xBB, CHR 0xD1, CHR 0x83, CHR 0xD1, CHR 0x87, CHR 0xD0,
    CHR 0xB5, CHR 0xD0, CHR 0xBD, CHR 0xD0, CHR 0xB8, CHR 0xD1, CHR 0x8F, CHR 0x20,
    CHR 0xD0, CHR 0xB4, CHR 0xD0, CHR 0xB0, CHR 0xD0, CHR 0xBD, CHR 0xD0, CHR 0xBD,
    CHR 0xD1, CHR 0x8B, CHR 0xD1, CHR 0x85, CHR 0x3A, CHR 0x20]"

definition err_list_prefix :: string where
  \<comment> \<open>storage GetAllCities, before the driver's error\<close>
  "err_list_prefix =
   [CHR 0xD0, CHR 0xBE, CHR 0xD1, CHR 0x88, CHR 0xD0, CHR 0xB8, CHR 0xD0, CHR 0xB1,
    CHR 0xD0, CHR 0xBA, CHR 0xD0, CHR 0xB0, CHR 0x20, CHR 0xD0, CHR 0xBF, CHR 0xD0,
    CHR 0xBE, CHR 0xD0, CHR 0xBB, CHR 0xD1, CHR 0x83, CHR 0xD1, CHR 0x87, CHR 0xD0,
    CHR 0xB5, CHR 0xD0, CHR 0xBD, CHR 0xD0, CHR 0xB8, CHR 0xD1, CHR 0x8F, CHR 0x20,
    CHR 0xD0, CHR 0xB3, CHR 0xD0, CHR 0xBE, CHR 0xD1, CHR 0x80, CHR 0xD0, CHR 0xBE,
    CHR 0xD0, CHR 0xB4, CHR 0xD0, CHR 0xBE, CHR 0xD0, CHR 0xB2, CHR 0x3A, CHR 0x20]"

definition err_redis_get :: string where
  \<comment> \<open>cache Get\<close>
  "err_redis_get =
   [CHR 0xD0, CHR 0xBE, CHR 0xD1, CHR 0x88, CHR 0xD0, CHR 0xB8, CHR 0xD0, CHR 0xB1,
    CHR 0xD0, CHR 0xBA, CHR 0xD0, CHR 0xB0, CHR 0x20, CHR 0xD1, CHR 0x87, CHR 0xD1,
    CHR 0x82, CHR 0xD0, CHR 0xB5, CHR 0xD0, CHR 0xBD, CHR 0xD0, CHR 0xB8, CHR 0xD1,
    CHR 0x8F, CHR 0x20, CHR 0xD0, CHR 0xB8, CHR 0xD0, CHR 0xB7, CHR 0x20, CHR 0x52,
    CHR 0x65, CHR 0x64, CHR 0x69, CHR 0x73, CHR 0x3A, CHR 0x20]"

definition err_redis_set :: string where
  \<comment> \<open>cache Set\<close>
  "err_redis_set =
   [CHR 0xD0, CHR 0xBE, CHR 0xD1, CHR 0x88, CHR 0xD0, CHR 0xB8, CHR 0xD0, CHR 0xB1,
    CHR 0xD0, CHR 0xBA, CHR 0xD0, CHR 0xB0, CHR 0x20, CHR 0xD0, CHR 0xB7, CHR 0xD0,
    CHR 0xB0, CHR 0xD0, CHR 0xBF, CHR 0xD0, CHR 0xB8, CHR 0xD1, CHR 0x81, CHR 0xD0,
    CHR 0xB8, CHR 0x20, CHR 0xD0, CHR 0xB2, CHR 0x20, CHR 0x52, CHR 0x65, CHR 0x64,
    CHR 0x69, CHR 0x73, CHR 0x3A, CHR 0x20]"

definition err_redis_del :: string where
  \<comment> \<open>cache Delete\<close>
  "err_redis_del =
   [CHR 0xD0, CHR 0xBE, CHR 0xD1, CHR 0x88, CHR 0xD0, CHR 0xB8, CHR 0xD0, CHR 0xB1,
    CHR 0xD0, CHR 0xBA, CHR 0xD0, CHR 0xB0, CHR 0x20, CHR 0xD1, CHR 0x83, CHR 0xD0,
    CHR 0xB4, CHR 0xD0, CHR 0xB0, CHR 0xD0, CHR 0xBB, CHR 0xD0, CHR 0xB5, CHR 0xD0,
    CHR 0xBD, CHR 0xD0, CHR 0xB8, CHR 0xD1, CHR 0x8F, CHR 0x20, CHR 0xD0, CHR 0xB8,
    CHR 0xD0, CHR 0xB7, CHR 0x20, CHR 0x52, CHR 0x65, CHR 0x64, CHR 0x69, CHR 0x73,
    CHR 0x3A, CHR 0x20]"

section \<open>The outside world\<close>

text \<open>
  Every call to the database, to Redis and to the clock is an input of the model: for
  each call the record says which error the driver returns (\<open>None\<close> when the call goes
  through) and what the clock reads. An error of the database call stands for any failure
  of the statement, a lost connection as well as a value that a column refuses. One record describes the world during one HTTP
  request or during the processing of one stream message.
\<close>

record io =
  db_err :: "string option"         \<comment> \<open>the error of the one database call\<close>
  db_clock :: int                   \<comment> \<open>\<^verbatim>\<open>time.Now()\<close> inside \<^verbatim>\<open>Save\<close>\<close>
  clock :: int                      \<comment> \<open>\<^verbatim>\<open>time.Now()\<close> inside the handler\<close>
  get_err :: "string option"        \<comment> \<open>the error of \<^verbatim>\<open>cache.Get\<close>\<close>
  set_err :: "string option"        \<comment> \<open>the error of \<^verbatim>\<open>cache.Set\<close>\<close>
  del_city_err :: "string option"   \<comment> \<open>the error of the first \<^verbatim>\<open>cache.Delete\<close>\<close>
  del_all_err :: "string option"    \<comment> \<open>the error of the second \<^verbatim>\<open>cache.Delete\<close>\<close>

section \<open>The record store (package storage)\<close>

text \<open>
  The table \<^verbatim>\<open>weather\<close>: one row per stored city, in insertion order. The primary
  key on \<^verbatim>\<open>city\<close> compares the strings byte for byte.
\<close>

record row =
  city :: string
  temp :: real
  condition :: string
  provider :: string
  updated_at :: int

type_synonym table = "row list"

definition primary_key :: "table \<Rightarrow> bool" where
  "primary_key t = distinct (map city t)"

text \<open>
  The statement of \<^verbatim>\<open>Save\<close> in \<^verbatim>\<open>internal/storage/postgres.go\<close>:
  \<^verbatim>\<open>INSERT ... ON CONFLICT (city) DO UPDATE SET temp, condition, provider, updated_at\<close>.
\<close>

fun upsert :: "row \<Rightarrow> table \<Rightarrow> table" where
  "upsert new [] = [new]"
| "upsert new (r # rs) =
     (if city r = city new
      then r\<lparr>temp := temp new, condition := condition new, provider := provider new,
             updated_at := updated_at new\<rparr> # rs
      else r # upsert new rs)"

text \<open>
  The statement of \<^verbatim>\<open>Save\<close> in the second copy of the storage package
  (\<^verbatim>\<open>src/unnamed/part_001\<close>): the \<^verbatim>\<open>SET\<close> list has \<^verbatim>\<open>temp\<close>, \<^verbatim>\<open>condition\<close> and
  \<^verbatim>\<open>updated_at\<close> only.
\<close>

fun upsert_001 :: "row \<Rightarrow> table \<Rightarrow> table" where
  "upsert_001 new [] = [new]"
| "upsert_001 new (r # rs) =
     (if city r = city new
      then r\<lparr>temp := temp new, condition := condition new,
             updated_at := updated_at new\<rparr> # rs
      else r # upsert_001 new rs)"

definition new_row :: "WeatherData \<Rightarrow> int \<Rightarrow> row" where
  \<comment> \<open>the five values bound to \<^verbatim>\<open>$1 .. $5\<close>: the reading's timestamp is not among them\<close>
  "new_row data now =
     \<lparr>city = City data, temp = Temp data, condition = Condition data,
      provider = Provider data, updated_at = now\<rparr>"

definition save_error :: "WeatherData \<Rightarrow> string \<Rightarrow> string" where
  "save_error data e = err_save_prefix @ City data @ '': '' @ e"

definition Save :: "string option \<Rightarrow> int \<Rightarrow> WeatherData \<Rightarrow> table \<Rightarrow> string + table" where
  "Save exec_err now data t =
     (case exec_err of
        Some e \<Rightarrow> Inl (save_error data e)
      | None \<Rightarrow> Inr (upsert (new_row data now) t))"

definition Save_001 :: "string option \<Rightarrow> int \<Rightarrow> WeatherData \<Rightarrow> table \<Rightarrow> string + table" where
  "Save_001 exec_err now data t =
     (case exec_err of
        Some e \<Rightarrow> Inl (save_error data e)
      | None \<Rightarrow> Inr (upsert_001 (new_row data now) t))"

definition GetByCity :: "string option \<Rightarrow> table \<Rightarrow> string \<Rightarrow> string + WeatherData" where
  "GetByCity query_err t c =
     (case query_err of
        Some e \<Rightarrow> Inl (err_get_prefix @ e)
      | None \<Rightarrow>
          (case find (\<lambda>r. city r = c) t of
             None \<Rightarrow> Inl (err_city_prefix @ c @ err_city_suffix)
           | Some r \<Rightarrow>
               Inr \<lparr>City = city r, Temp = temp r, Condition = condition r,
                    Provider = provider r, Timestamp = updated_at r\<rparr>))"

definition store_GetAllCities :: "string option \<Rightarrow> table \<Rightarrow> string + string list" where
  \<comment> \<open>\<^verbatim>\<open>SELECT city FROM weather ORDER BY city\<close>, in byte order\<close>
  "store_GetAllCities query_err t =
     (case query_err of
        Some e \<Rightarrow> Inl (err_list_prefix @ e)
      | None \<Rightarrow> Inr (sort (map city t)))"

section \<open>The cache (package cache)\<close>

text \<open>
  Redis as the handlers see it: the entries, and the commands sent so far. An entry is
  held as the \<^verbatim>\<open>WeatherData\<close> whose JSON encoding \<^verbatim>\<open>Set\<close> stores and \<^verbatim>\<open>Get\<close>
  decodes. Expiry happens between calls and is not part of a call.
\<close>

datatype command = GET string | SET string | DEL string

record redis =
  entries :: "string \<rightharpoonup> WeatherData"
  commands :: "command list"

definition CityKey :: "string \<Rightarrow> string" where
  "CityKey c = ''weather:city:'' @ c"

definition AllCitiesKey :: string where
  "AllCitiesKey = ''weather:cities:all''"

definition cache_Set :: "string option \<Rightarrow> string \<Rightarrow> WeatherData \<Rightarrow> redis \<Rightarrow> string option \<times> redis" where
  "cache_Set err key data c =
     (case err of
        Some e \<Rightarrow> (Some (err_redis_set @ e), c\<lparr>commands := commands c @ [SET key]\<rparr>)
      | None \<Rightarrow>
          (None, c\<lparr>entries := (entries c)(key \<mapsto> data), commands := commands c @ [SET key]\<rparr>))"

definition cache_Get :: "string option \<Rightarrow> string \<Rightarrow> redis \<Rightarrow> (string + WeatherData option) \<times> redis" where
  \<comment> \<open>\<open>Inr None\<close> is the miss (\<^verbatim>\<open>redis.Nil\<close>): \<^verbatim>\<open>nil, nil\<close>\<close>
  "cache_Get err key c =
     (case err of
        Some e \<Rightarrow> (Inl (err_redis_get @ e), c\<lparr>commands := commands c @ [GET key]\<rparr>)
      | None \<Rightarrow> (Inr (entries c key), c\<lparr>commands := commands c @ [GET key]\<rparr>))"

definition cache_Delete :: "string option \<Rightarrow> string \<Rightarrow> redis \<Rightarrow> string option \<times> redis" where
  "cache_Delete err key c =
     (case err of
        Some e \<Rightarrow> (Some (err_redis_del @ e), c\<lparr>commands := commands c @ [DEL key]\<rparr>)
      | None \<Rightarrow>
          (None, c\<lparr>entries := (entries c)(key := None), commands := commands c @ [DEL key]\<rparr>))"

section \<open>Strings (package strings of the Go library)\<close>

text \<open>
  \<^verbatim>\<open>strings.ToLower\<close> on the ASCII letters; the case mapping of multi-byte runes is
  not modelled, and such bytes are kept. The function agrees with Go's on every string
  whose bytes are all below 128, and differs from it on a string with an upper-case
  letter outside ASCII. No proof below depends on what it does to a byte, and the
  closed theorems apply it to ASCII strings only.
\<close>

definition lower_byte :: "char \<Rightarrow> char" where
  "lower_byte c =
     (let n = (of_char c :: nat) in if 65 \<le> n \<and> n \<le> 90 then char_of (n + 32) else c)"

definition ToLower :: "string \<Rightarrow> string" where
  "ToLower s = map lower_byte s"

text \<open>
  \<^verbatim>\<open>strings.Join(elems, sep)\<close>: the empty string for no element, the element itself
  for one, and the elements with \<open>sep\<close> between them otherwise.
\<close>

fun Join :: "string list \<Rightarrow> string \<Rightarrow> string" where
  "Join [] sep = []"
| "Join [x] sep = x"
| "Join (x # y # ys) sep = x @ sep @ Join (y # ys) sep"

text \<open>
  \<^verbatim>\<open>strings.Split(s, sep)\<close> for a separator of one byte, as in \<^verbatim>\<open>genSplit\<close>: look for
  the first separator; with none left the rest of the string is the last piece, and
  otherwise the bytes before it are a piece and the loop goes on behind it. The result
  always has one piece more than the string has separators.
\<close>

function Split :: "string \<Rightarrow> char \<Rightarrow> string list" where
  "Split s sep =
     (case dropWhile (\<lambda>x. x \<noteq> sep) s of
        [] \<Rightarrow> [s]
      | _ # rest \<Rightarrow> takeWhile (\<lambda>x. x \<noteq> sep) s # Split rest sep)"
  by pat_completeness auto
termination
proof (relation "measure (\<lambda>(s, sep). length s)")
  show "wf (measure (\<lambda>(s, sep). length s))" by simp
next
  fix s :: string and sep x rest
  assume "dropWhile (\<lambda>x. x \<noteq> sep) s = x # rest"
  then have "length rest < length (dropWhile (\<lambda>x. x \<noteq> sep) s)" by simp
  also have "\<dots> \<le> length s" by (rule length_dropWhile_le)
  finally show "((rest, sep), (s, sep)) \<in> measure (\<lambda>(s, sep). length s)" by simp
qed

declare Split.simps [simp del]

section \<open>The ingestion consumer (ConsumerHandler)\<close>

text \<open>
  A stream message with its offset in the partition. \<^verbatim>\<open>Value\<close> is held as what
  \<^verbatim>\<open>json.Unmarshal(msg.Value, &data)\<close> makes of the bytes: an error with its text, or
  the decoded \<^verbatim>\<open>WeatherData\<close>.
\<close>

datatype payload = BadJSON string | Reading WeatherData

record ConsumerMessage =
  Offset :: int
  Value :: payload

datatype log_entry =
    LogBadJSON string               \<comment> \<open>the decoder's error\<close>
  | LogSaveFailed string string     \<comment> \<open>city, error\<close>
  | LogSaved string real            \<comment> \<open>city, temp\<close>

text \<open>
  The state the handler works on: the table behind \<^verbatim>\<open>h.store\<close>, the messages
  passed to \<^verbatim>\<open>sess.MarkMessage\<close> (in call order), and the lines written to
  \<^verbatim>\<open>h.logger\<close>.
\<close>

record consumer =
  weather :: table
  marked :: "ConsumerMessage list"
  logged :: "log_entry list"

type_synonym save_fn = "string option \<Rightarrow> int \<Rightarrow> WeatherData \<Rightarrow> table \<Rightarrow> string + table"

text \<open>
  The body of the loop of \<^verbatim>\<open>ConsumeClaim\<close>, for one message. Both \<^verbatim>\<open>continue\<close>
  branches leave the loop body before \<^verbatim>\<open>sess.MarkMessage\<close>. The package that
  \<^verbatim>\<open>h.store.Save\<close> resolves to is a parameter.
\<close>

definition consume_one :: "save_fn \<Rightarrow> ConsumerMessage \<times> io \<Rightarrow> consumer \<Rightarrow> consumer" where
  "consume_one save d s =
     (case Value (fst d) of
        BadJSON e \<Rightarrow> s\<lparr>logged := logged s @ [LogBadJSON e]\<rparr>
      | Reading data \<Rightarrow>
          (case save (db_err (snd d)) (db_clock (snd d)) data (weather s) of
             Inl e \<Rightarrow> s\<lparr>logged := logged s @ [LogSaveFailed (City data) e]\<rparr>
           | Inr t \<Rightarrow>
               s\<lparr>weather := t,
                 logged := logged s @ [LogSaved (City data) (Temp data)],
                 marked := marked s @ [fst d]\<rparr>))"

fun ConsumeClaim :: "save_fn \<Rightarrow> (ConsumerMessage \<times> io) list \<Rightarrow> consumer \<Rightarrow> consumer" where
  "ConsumeClaim save [] s = s"
| "ConsumeClaim save (d # ds) s = ConsumeClaim save ds (consume_one save d s)"

text \<open>
  What the stream library (sarama) does with the marks. \<^verbatim>\<open>MarkMessage(msg)\<close> is
  \<^verbatim>\<open>MarkOffset(msg.Offset + 1)\<close>, and \<^verbatim>\<open>MarkOffset\<close> moves the partition's offset
  forward only. The offset is one number per partition: it is the place where the next
  claim starts, so the messages of the partition that a later claim delivers are those
  at or behind it.
\<close>

definition MarkOffset :: "int \<Rightarrow> int \<Rightarrow> int" where
  "MarkOffset cur off = (if off > cur then off else cur)"

definition committed :: "int \<Rightarrow> ConsumerMessage list \<Rightarrow> int" where
  "committed start ms = foldl (\<lambda>cur m. MarkOffset cur (Offset m + 1)) start ms"

definition redelivered :: "int \<Rightarrow> ConsumerMessage list \<Rightarrow> ConsumerMessage list" where
  "redelivered next_offset msgs = filter (\<lambda>m. next_offset \<le> Offset m) msgs"

section \<open>The serving layer (WeatherHandler)\<close>

text \<open>
  The handlers take the path variable \<^verbatim>\<open>city\<close>, the table and the cache, and return
  the response with the new table and cache. The logger of the handlers is left out.
\<close>

definition GetWeather :: "io \<Rightarrow> string \<Rightarrow> table \<Rightarrow> redis \<Rightarrow> response \<times> redis" where
  "GetWeather w var t c =
     (let city = ToLower var;
          (cachedData, c1) = cache_Get (get_err w) (CityKey city) c
      in case cachedData of
           Inr (Some d) \<Rightarrow> (sendJSON 200 (WeatherJSON (with_cached d True)), c1)
         | _ \<Rightarrow>
             (case GetByCity (db_err w) t city of
                Inl e \<Rightarrow> (sendError 404 msg_city_not_found e, c1)
              | Inr dbData \<Rightarrow>
                  (let (_, c2) = cache_Set (set_err w) (CityKey city) dbData c1
                   in (sendJSON 200 (WeatherJSON (with_cached dbData False)), c2))))"

definition GetAllCities :: "io \<Rightarrow> table \<Rightarrow> redis \<Rightarrow> response \<times> redis" where
  "GetAllCities w t c =
     (let (cached, c1) = cache_Get (get_err w) AllCitiesKey c
      in case cached of
           Inr (Some d) \<Rightarrow>
             (let cities = Split (City d) CHR '','' 
              in (sendJSON 200 (CitiesJSON \<lparr>Cities = cities, Total = length cities\<rparr>), c1))
         | _ \<Rightarrow>
             (case store_GetAllCities (db_err w) t of
                Inl e \<Rightarrow> (sendError 500 msg_internal [], c1)
              | Inr cities \<Rightarrow>
                  (let cacheData = \<lparr>City = Join cities '','', Temp = 0, Condition = [],
                                    Provider = [], Timestamp = 0\<rparr>;
                       (_, c2) = cache_Set (set_err w) AllCitiesKey cacheData c1
                   in (sendJSON 200 (CitiesJSON \<lparr>Cities = cities, Total = length cities\<rparr>), c2))))"

text \<open>
  \<open>body\<close> is what \<^verbatim>\<open>json.NewDecoder(r.Body).Decode(&data)\<close> gives: the decoder's
  error, or the decoded value.
\<close>

definition UpdateWeather ::
    "io \<Rightarrow> string \<Rightarrow> string + WeatherData \<Rightarrow> table \<Rightarrow> redis \<Rightarrow> response \<times> table \<times> redis" where
  "UpdateWeather w var body t c =
     (let city = ToLower var
      in case body of
           Inl e \<Rightarrow> (sendError 400 msg_bad_json e, t, c)
         | Inr decoded \<Rightarrow>
             (let data = decoded\<lparr>City := city, Timestamp := clock w\<rparr>
              in case Save (db_err w) (db_clock w) data t of
                   Inl e \<Rightarrow> (sendError 500 msg_save_failed e, t, c)
                 | Inr t' \<Rightarrow>
                     (let (_, c1) = cache_Delete (del_city_err w) (CityKey city) c;
                          (_, c2) = cache_Delete (del_all_err w) AllCitiesKey c1
                      in (sendJSON 200 (StatusJSON ''ok''), t', c2))))"

section \<open>The cache as a mirror of the store\<close>

text \<open>
  The cache is coherent with the table when every key that has an entry is the key of
  the listing or the key of a stored city.
\<close>

definition coherent :: "table \<Rightarrow> redis \<Rightarrow> bool" where
  "coherent t c = (dom (entries c) \<subseteq> insert AllCitiesKey (CityKey ` city ` set t))"

section \<open>Example data\<close>

text \<open>
  A world in which every call goes through, an empty cache, and a stored row and two
  readings for Paris; the closed theorems below are stated on them.
\<close>

definition calm :: io where
  "calm = \<lparr>db_err = None, db_clock = 50, clock = 49, get_err = None, set_err = None,
           del_city_err = None, del_all_err = None\<rparr>"

definition cold :: redis where
  "cold = \<lparr>entries = Map.empty, commands = []\<rparr>"

definition paris_row :: row where
  "paris_row =
     \<lparr>city = ''paris'', temp = 10, condition = ''Clear'', provider = ''A'', updated_at = 5\<rparr>"

definition paris_rain :: WeatherData where
  "paris_rain =
     \<lparr>City = ''Paris'', Temp = 12, Condition = ''Rain'', Provider = ''B'', Timestamp = 7\<rparr>"

definition moscow_cloudy :: WeatherData where
  \<comment> \<open>a reading as \<^verbatim>\<open>cmd/collector\<close> emits it\<close>
  "moscow_cloudy =
     \<lparr>City = ''Moscow'', Temp = 21, Condition = ''Cloudy'', Provider = ''OpenWeatherMap'',
      Timestamp = 40\<rparr>"


definition fresh :: consumer where
  "fresh = \<lparr>weather = [], marked = [], logged = []\<rparr>"

definition broken_msg :: ConsumerMessage where
  "broken_msg = \<lparr>Offset = 0, Value = BadJSON ''unexpected end of JSON input''\<rparr>"

definition paris_msg :: ConsumerMessage where
  "paris_msg = \<lparr>Offset = 0, Value = Reading paris_rain\<rparr>"

definition moscow_msg :: ConsumerMessage where
  "moscow_msg = \<lparr>Offset = 1, Value = Reading moscow_cloudy\<rparr>"

definition db_down :: io where
  "db_down = calm\<lparr>db_err := Some ''connection refused''\<rparr>"

section \<open>The record store: upsert\<close>

lemma upsert_find: "find (\<lambda>r. city r = city new) (upsert new t) = Some new"
  by (induction t) auto

lemma upsert_twice: "city a = city b \<Longrightarrow> upsert b (upsert a t) = upsert b t"
  by (induction t) auto

lemma upsert_cities: "set (map city (upsert new t)) = insert (city new) (set (map city t))"
  by (induction t) auto

lemma upsert_primary_key: "primary_key t \<Longrightarrow> primary_key (upsert new t)"
  unfolding primary_key_def
proof (induction t)
  case Nil
  then show ?case by simp
next
  case (Cons r rs)
  have "city r \<notin> city ` set (upsert new rs)" if "city r \<noteq> city new"
    using that Cons.prems upsert_cities [of new rs] by auto
  with Cons show ?case by auto
qed

lemma primary_key_count:
  "primary_key t \<Longrightarrow> c \<in> set (map city t) \<Longrightarrow> length (filter (\<lambda>r. city r = c) t) = 1"
  unfolding primary_key_def
  by (induction t) (auto simp: filter_empty_conv image_iff)

text \<open>
  The \<^verbatim>\<open>Save\<close> of \<^verbatim>\<open>internal/storage/postgres.go\<close> replaces every column of the row of
  an existing city by the values of the call.
\<close>

lemma Save_replaces_row:
  "Save None now data t = Inr (upsert (new_row data now) t) \<and>
   find (\<lambda>r. city r = City data) (upsert (new_row data now) t) = Some (new_row data now)"
  using upsert_find [of "new_row data now" t] by (simp add: Save_def new_row_def)

text \<open>
  Claim C5, on the second copy of the storage package. A row for Paris with provider
  \<open>A\<close> is stored; \<^verbatim>\<open>Save\<close> is called with a reading for Paris from provider \<open>B\<close>.
  The temperature, the condition and the time of the row are replaced, the provider is
  not: the row keeps \<open>A\<close>.
\<close>

theorem Save_001_keeps_provider:
  "Save_001 None 20
     \<lparr>City = ''Paris'', Temp = 12, Condition = ''Rain'', Provider = ''B'', Timestamp = 7\<rparr>
     [\<lparr>city = ''Paris'', temp = 10, condition = ''Clear'', provider = ''A'', updated_at = 5\<rparr>]
   = Inr [\<lparr>city = ''Paris'', temp = 12, condition = ''Rain'', provider = ''A'',
           updated_at = 20\<rparr>]"
  by (simp add: Save_001_def new_row_def)

text \<open>
  Claim C7: last arrival wins. Two readings for the same city are saved one after the
  other, both calls going through. Whatever the two \<^verbatim>\<open>Timestamp\<close> fields are, reading
  the city back gives the fields of the reading saved last, with the time of the second
  call as its timestamp.
\<close>

theorem last_arrival_wins:
  assumes "City a = City b"
  shows "\<exists>t1 t2. Save None n1 a t = Inr t1 \<and> Save None n2 b t1 = Inr t2 \<and>
           GetByCity None t2 (City b) = Inr (b\<lparr>Timestamp := n2\<rparr>)"
  using assms upsert_find [of "new_row b n2" "upsert (new_row a n1) t"]
  by (simp add: Save_def GetByCity_def new_row_def)

text \<open>
  The scenario of the specification: Paris at 19.0 observed at 100 is processed first,
  Paris at 18.5 observed at 200 second; 18.5 is stored.
\<close>

theorem last_arrival_wins_witness:
  "City \<lparr>City = ''Paris'', Temp = 19, Condition = ''Rain'', Provider = ''X'', Timestamp = 100\<rparr>
     = City \<lparr>City = ''Paris'', Temp = 18.5, Condition = ''Clear'', Provider = ''X'', Timestamp = 200\<rparr>
   \<and> (\<exists>t1 t2.
         Save None 1000
           \<lparr>City = ''Paris'', Temp = 19, Condition = ''Rain'', Provider = ''X'', Timestamp = 100\<rparr>
           [] = Inr t1 \<and>
         Save None 1001
           \<lparr>City = ''Paris'', Temp = 18.5, Condition = ''Clear'', Provider = ''X'', Timestamp = 200\<rparr>
           t1 = Inr t2 \<and>
         GetByCity None t2 ''Paris''
           = Inr \<lparr>City = ''Paris'', Temp = 18.5, Condition = ''Clear'', Provider = ''X'',
                  Timestamp = 1001\<rparr>)"
  using last_arrival_wins
    [of "\<lparr>City = ''Paris'', Temp = 19, Condition = ''Rain'', Provider = ''X'', Timestamp = 100\<rparr>"
        "\<lparr>City = ''Paris'', Temp = 18.5, Condition = ''Clear'', Provider = ''X'', Timestamp = 200\<rparr>"
        1000 "[]" 1001]
  by simp

text \<open>
  Claim C8: the upsert is idempotent. On a table that respects its primary key, saving
  the same record twice gives the table that saving it once (at the time of the second
  call) gives; the row of the city is the record of the second call, and the table has
  exactly one row for the city.
\<close>

theorem Save_idempotent:
  assumes "primary_key t"
  shows "\<exists>t1 t2. Save None n1 d t = Inr t1 \<and> Save None n2 d t1 = Inr t2 \<and>
           Save None n2 d t = Inr t2 \<and>
           find (\<lambda>r. city r = City d) t2 = Some (new_row d n2) \<and>
           length (filter (\<lambda>r. city r = City d) t2) = 1"
proof -
  let ?t1 = "upsert (new_row d n1) t" and ?t2 = "upsert (new_row d n2) t"
  have c: "city (new_row d n1) = City d" "city (new_row d n2) = City d"
    by (simp_all add: new_row_def)
  have "upsert (new_row d n2) ?t1 = ?t2"
    by (rule upsert_twice) (simp add: c)
  moreover have "find (\<lambda>r. city r = City d) ?t2 = Some (new_row d n2)"
    using upsert_find [of "new_row d n2" t] by (simp add: c)
  moreover have "length (filter (\<lambda>r. city r = City d) ?t2) = 1"
  proof (rule primary_key_count)
    show "primary_key ?t2" using assms by (rule upsert_primary_key)
    show "City d \<in> set (map city ?t2)"
      using upsert_cities [of "new_row d n2" t] by (simp add: c)
  qed
  ultimately show ?thesis by (simp add: Save_def)
qed

theorem Save_idempotent_witness:
  "primary_key
     [\<lparr>city = ''Berlin'', temp = 3, condition = ''Snow'', provider = ''X'', updated_at = 1\<rparr>,
      \<lparr>city = ''Paris'', temp = 10, condition = ''Clear'', provider = ''A'', updated_at = 5\<rparr>]
   \<and> (\<exists>t1 t2.
         Save None 8
           \<lparr>City = ''Paris'', Temp = 12, Condition = ''Rain'', Provider = ''B'', Timestamp = 7\<rparr>
           [\<lparr>city = ''Berlin'', temp = 3, condition = ''Snow'', provider = ''X'', updated_at = 1\<rparr>,
            \<lparr>city = ''Paris'', temp = 10, condition = ''Clear'', provider = ''A'', updated_at = 5\<rparr>]
           = Inr t1 \<and>
         Save None 9
           \<lparr>City = ''Paris'', Temp = 12, Condition = ''Rain'', Provider = ''B'', Timestamp = 7\<rparr>
           t1 = Inr t2 \<and>
         t2 = [\<lparr>city = ''Berlin'', temp = 3, condition = ''Snow'', provider = ''X'', updated_at = 1\<rparr>,
               \<lparr>city = ''Paris'', temp = 12, condition = ''Rain'', provider = ''B'', updated_at = 9\<rparr>] \<and>
         length (filter (\<lambda>r. city r = ''Paris'') t2) = 1)"
proof -
  let ?t = "[\<lparr>city = ''Berlin'', temp = 3, condition = ''Snow'', provider = ''X'', updated_at = 1\<rparr>,
             \<lparr>city = ''Paris'', temp = 10, condition = ''Clear'', provider = ''A'', updated_at = 5\<rparr>]"
  let ?d = "\<lparr>City = ''Paris'', Temp = 12, Condition = ''Rain'', Provider = ''B'', Timestamp = 7\<rparr>"
  have h: "primary_key ?t" by (simp add: primary_key_def)
  from Save_idempotent [OF h, of 8 ?d 9] h show ?thesis
    by (simp add: Save_def new_row_def)
qed

section \<open>The ingestion consumer: what is marked\<close>

lemma consume_one_marked:
  "set (marked (consume_one save d s)) \<subseteq> set (marked s) \<union> {m. \<exists>r. Value m = Reading r}"
  by (auto simp: consume_one_def split: payload.splits sum.splits)

lemma ConsumeClaim_marked:
  "set (marked (ConsumeClaim save ds s)) \<subseteq> set (marked s) \<union> {m. \<exists>r. Value m = Reading r}"
proof (induction ds arbitrary: s)
  case Nil
  then show ?case by simp
next
  case (Cons d ds)
  from Cons.IH [of "consume_one save d s"] consume_one_marked [of save d s]
  show ?case by auto
qed

text \<open>A decoded message is marked exactly when its \<^verbatim>\<open>Save\<close> returns no error.\<close>

lemma consume_one_marks_iff:
  "Value m = Reading d \<Longrightarrow>
   (marked (consume_one save (m, w) s) = marked s @ [m])
     = (\<exists>t. save (db_err w) (db_clock w) d (weather s) = Inr t)"
  by (auto simp: consume_one_def split: sum.splits)

lemma MarkOffset_ge: "cur \<le> MarkOffset cur off" "off \<le> MarkOffset cur off"
  by (simp_all add: MarkOffset_def)

lemma committed_ge: "start \<le> committed start ms"
proof (induction ms arbitrary: start)
  case Nil
  then show ?case by (simp add: committed_def)
next
  case (Cons m ms)
  have "start \<le> MarkOffset start (Offset m + 1)" by (rule MarkOffset_ge)
  also have "\<dots> \<le> committed (MarkOffset start (Offset m + 1)) ms" by (rule Cons.IH)
  finally show ?case by (simp add: committed_def)
qed

text \<open>Every marked message lies before the offset at which the next claim starts.\<close>

lemma committed_above: "m \<in> set ms \<Longrightarrow> Offset m < committed start ms"
proof (induction ms arbitrary: start)
  case Nil
  then show ?case by simp
next
  case (Cons x ms)
  show ?case
  proof (cases "m = x")
    case True
    have "Offset m + 1 \<le> MarkOffset start (Offset m + 1)" by (rule MarkOffset_ge)
    also have "\<dots> \<le> committed (MarkOffset start (Offset m + 1)) ms" by (rule committed_ge)
    finally show ?thesis using True by (simp add: committed_def)
  next
    case False
    with Cons.prems have "m \<in> set ms" by simp
    from Cons.IH [OF this, of "MarkOffset start (Offset x + 1)"]
    show ?thesis by (simp add: committed_def)
  qed
qed

text \<open>
  The offset at which the next claim starts is the one the partition had, or one past
  the offset of a marked message.
\<close>

lemma committed_origin:
  "committed start ms = start \<or> (\<exists>m \<in> set ms. committed start ms = Offset m + 1)"
proof (induction ms arbitrary: start)
  case Nil
  then show ?case by (simp add: committed_def)
next
  case (Cons x ms)
  let ?next = "MarkOffset start (Offset x + 1)"
  have step: "committed start (x # ms) = committed ?next ms"
    by (simp add: committed_def)
  from Cons.IH [of ?next] show ?case
  proof
    assume "committed ?next ms = ?next"
    then show ?thesis unfolding step by (auto simp: MarkOffset_def)
  next
    assume "\<exists>m \<in> set ms. committed ?next ms = Offset m + 1"
    then show ?thesis unfolding step by auto
  qed
qed

lemma committed_passed:
  assumes "start \<le> off" and "off < committed start ms"
  shows "\<exists>m \<in> set ms. off \<le> Offset m"
proof -
  from committed_origin [of start ms] assms
  obtain m where "m \<in> set ms" and "committed start ms = Offset m + 1" by auto
  with assms(2) show ?thesis by auto
qed

text \<open>
  Claim C1 as stated (a message that fails to parse is acknowledged, its offset advances
  and it is never redelivered) fails: a claim that holds one malformed message at offset
  0 ends with no message marked, the offset of the partition still 0, and the message
  among those the next claim delivers.
\<close>

theorem malformed_not_acknowledged_counterexample:
  "marked (ConsumeClaim Save [(broken_msg, calm)] fresh) = [] \<and>
   committed 0 (marked (ConsumeClaim Save [(broken_msg, calm)] fresh)) = 0 \<and>
   redelivered (committed 0 (marked (ConsumeClaim Save [(broken_msg, calm)] fresh))) [broken_msg]
     = [broken_msg]"
  by code_simp

text \<open>
  Claim C1, amended: when a stream message fails to parse, the consumer logs the failure
  and goes on to the next message without acknowledging it. The table and the marks are
  as they were and one line is logged; no claim ever marks the message; once a message
  at the same or a later offset is marked, the malformed message is before the offset
  of the partition and is not delivered again; and only then: for a malformed message
  that was not yet passed when the claim started, the offset of the partition is past
  it, or the message is missing from what is delivered again, only if a message at the
  same or a later offset has been marked.
\<close>

theorem malformed_logged_and_skipped:
  assumes "Value m = BadJSON e"
  shows "consume_one save (m, w) s = s\<lparr>logged := logged s @ [LogBadJSON e]\<rparr> \<and>
         (m \<notin> set (marked s) \<longrightarrow> m \<notin> set (marked (ConsumeClaim save ds s))) \<and>
         (\<forall>m' \<in> set (marked (ConsumeClaim save ds s)).
            Offset m \<le> Offset m' \<longrightarrow>
            m \<notin> set (redelivered (committed start (marked (ConsumeClaim save ds s))) msgs)) \<and>
         (start \<le> Offset m \<longrightarrow>
            Offset m < committed start (marked (ConsumeClaim save ds s)) \<longrightarrow>
            (\<exists>m' \<in> set (marked (ConsumeClaim save ds s)). Offset m \<le> Offset m')) \<and>
         (start \<le> Offset m \<longrightarrow> m \<in> set msgs \<longrightarrow>
            m \<notin> set (redelivered (committed start (marked (ConsumeClaim save ds s))) msgs) \<longrightarrow>
            (\<exists>m' \<in> set (marked (ConsumeClaim save ds s)). Offset m \<le> Offset m'))"
proof (intro conjI impI ballI)
  show "consume_one save (m, w) s = s\<lparr>logged := logged s @ [LogBadJSON e]\<rparr>"
    using assms by (simp add: consume_one_def)
next
  assume "m \<notin> set (marked s)"
  then show "m \<notin> set (marked (ConsumeClaim save ds s))"
    using assms ConsumeClaim_marked [of save ds s] by auto
next
  fix m'
  assume "m' \<in> set (marked (ConsumeClaim save ds s))" and "Offset m \<le> Offset m'"
  with committed_above [of m' "marked (ConsumeClaim save ds s)" start]
  show "m \<notin> set (redelivered (committed start (marked (ConsumeClaim save ds s))) msgs)"
    by (simp add: redelivered_def)
next
  assume "start \<le> Offset m"
    and "Offset m < committed start (marked (ConsumeClaim save ds s))"
  then show "\<exists>m' \<in> set (marked (ConsumeClaim save ds s)). Offset m \<le> Offset m'"
    by (rule committed_passed)
next
  assume "start \<le> Offset m" and "m \<in> set msgs"
    and "m \<notin> set (redelivered (committed start (marked (ConsumeClaim save ds s))) msgs)"
  then have "Offset m < committed start (marked (ConsumeClaim save ds s))"
    by (simp add: redelivered_def)
  with \<open>start \<le> Offset m\<close>
  show "\<exists>m' \<in> set (marked (ConsumeClaim save ds s)). Offset m \<le> Offset m'"
    by (rule committed_passed)
qed

text \<open>A malformed message at offset 0 followed by a reading at offset 1 that is saved.\<close>

theorem malformed_logged_and_skipped_witness:
  "Value broken_msg = BadJSON ''unexpected end of JSON input'' \<and>
   broken_msg \<notin> set (marked fresh) \<and>
   moscow_msg \<in> set (marked (ConsumeClaim Save [(broken_msg, calm), (moscow_msg, calm)] fresh)) \<and>
   Offset broken_msg \<le> Offset moscow_msg \<and>
   consume_one Save (broken_msg, calm) fresh
     = fresh\<lparr>logged := [LogBadJSON ''unexpected end of JSON input'']\<rparr> \<and>
   broken_msg \<notin> set (marked (ConsumeClaim Save [(broken_msg, calm), (moscow_msg, calm)] fresh)) \<and>
   broken_msg \<notin> set (redelivered
       (committed 0 (marked (ConsumeClaim Save [(broken_msg, calm), (moscow_msg, calm)] fresh)))
       [broken_msg, moscow_msg]) \<and>
   0 \<le> Offset broken_msg \<and>
   Offset broken_msg
     < committed 0 (marked (ConsumeClaim Save [(broken_msg, calm), (moscow_msg, calm)] fresh)) \<and>
   broken_msg \<in> set [broken_msg, moscow_msg] \<and>
   (\<exists>m' \<in> set (marked (ConsumeClaim Save [(broken_msg, calm), (moscow_msg, calm)] fresh)).
      Offset broken_msg \<le> Offset m')"
proof -
  have h: "Value broken_msg = BadJSON ''unexpected end of JSON input''"
    by (simp add: broken_msg_def)
  have a: "broken_msg \<notin> set (marked fresh)" "logged fresh = []"
    by (simp_all add: fresh_def)
  have b: "moscow_msg \<in> set (marked (ConsumeClaim Save [(broken_msg, calm), (moscow_msg, calm)] fresh))"
    by code_simp
  have c: "Offset broken_msg \<le> Offset moscow_msg"
    by (simp add: broken_msg_def moscow_msg_def)
  have d: "0 \<le> Offset broken_msg"
    "Offset broken_msg
       < committed 0 (marked (ConsumeClaim Save [(broken_msg, calm), (moscow_msg, calm)] fresh))"
    by code_simp+
  from malformed_logged_and_skipped
    [OF h, of Save calm fresh "[(broken_msg, calm), (moscow_msg, calm)]" 0 "[broken_msg, moscow_msg]"]
    h a b c d
  show ?thesis by auto
qed

text \<open>
  Claim C2 (a message whose upsert fails is not acknowledged, its offset does not
  advance, and it is delivered again on a later claim), at a claim of two readings: the
  upsert of the reading at offset 0 fails, the upsert of the reading at offset 1
  succeeds. Only the second message is marked and only its city is stored, but the mark
  moves the offset of the partition to 2, behind the first message: no later claim
  delivers it again.
\<close>

theorem failed_upsert_passed_over:
  "marked (ConsumeClaim Save [(paris_msg, db_down), (moscow_msg, calm)] fresh) = [moscow_msg] \<and>
   map city (weather (ConsumeClaim Save [(paris_msg, db_down), (moscow_msg, calm)] fresh))
     = [''Moscow''] \<and>
   committed 0 (marked (ConsumeClaim Save [(paris_msg, db_down), (moscow_msg, calm)] fresh)) = 2 \<and>
   redelivered
     (committed 0 (marked (ConsumeClaim Save [(paris_msg, db_down), (moscow_msg, calm)] fresh)))
     [paris_msg, moscow_msg] = []"
  by code_simp

section \<open>The serving layer: reads\<close>



text \<open>With no entry under the key, an error of \<^verbatim>\<open>cache.Get\<close> is handled as the miss is.\<close>

lemma GetWeather_cache_error_as_miss:
  "entries c (CityKey (ToLower var)) = None \<Longrightarrow>
   GetWeather (w\<lparr>get_err := Some e\<rparr>) var t c = GetWeather (w\<lparr>get_err := None\<rparr>) var t c"
  by (simp add: GetWeather_def cache_Get_def Let_def split: sum.splits)

text \<open>
  Claim C4 (on the read path a failure of the record store becomes a 5xx response and
  only a lookup that finds nothing becomes a 404), at a request for Paris while the row
  of Paris is stored, the cache is empty and the query fails with a connection error:
  the handler answers 404 with the text "city not found" and the store's error as the
  message.
\<close>

theorem GetWeather_store_failure_is_404:
  "fst (GetWeather db_down ''Paris'' [paris_row] cold)
   = sendError 404 msg_city_not_found (err_get_prefix @ ''connection refused'')"
  by code_simp



section \<open>The serving layer: the listing of the cities\<close>

lemma Split_no_sep: "sep \<notin> set s \<Longrightarrow> Split s sep = [s]"
proof -
  assume "sep \<notin> set s"
  then have d: "dropWhile (\<lambda>x. x \<noteq> sep) s = []"
    by (auto simp: dropWhile_eq_Nil_conv)
  show ?thesis by (subst Split.simps) (simp only: d list.case)
qed

lemma Split_at_sep:
  assumes "sep \<notin> set x"
  shows "Split (x @ sep # rest) sep = x # Split rest sep"
proof -
  from assms have d: "dropWhile (\<lambda>c. c \<noteq> sep) (x @ sep # rest) = sep # rest"
    by (auto simp: dropWhile_append3)
  from assms have t: "takeWhile (\<lambda>c. c \<noteq> sep) (x @ sep # rest) = x"
    by (auto simp: takeWhile_tail)
  show ?thesis by (subst Split.simps) (simp only: d t list.case)
qed

text \<open>
  Joining and splitting gives the list back when the list is not empty and no name has
  the separator in it.
\<close>

lemma Split_Join:
  "xs \<noteq> [] \<Longrightarrow> \<forall>x \<in> set xs. sep \<notin> set x \<Longrightarrow> Split (Join xs [sep]) sep = xs"
proof (induction xs "[sep]" rule: Join.induct)
  case 1
  then show ?case by simp
next
  case (2 x)
  then show ?case by (simp add: Split_no_sep)
next
  case (3 x y ys)
  then show ?case by (simp add: Split_at_sep)
qed

text \<open>
  Claim C10 (the listing served from the cache equals the listing served from the
  store, for every list of cities, the empty list included), at the empty table and the
  empty cache. The first request is served from the store: no city, total 0; it stores
  the joined list, the empty string, under the key of the listing. The second request
  is served from the cache: splitting the empty string gives one empty name, total 1.
\<close>

theorem GetAllCities_empty_store_cached:
  "GetAllCities calm [] cold
     = (sendJSON 200 (CitiesJSON \<lparr>Cities = [], Total = 0\<rparr>),
        \<lparr>entries = [AllCitiesKey \<mapsto> \<lparr>City = [], Temp = 0, Condition = [], Provider = [],
                                    Timestamp = 0\<rparr>],
         commands = [GET AllCitiesKey, SET AllCitiesKey]\<rparr>) \<and>
   fst (GetAllCities calm [] (snd (GetAllCities calm [] cold)))
     = sendJSON 200 (CitiesJSON \<lparr>Cities = [[]], Total = 1\<rparr>)"
  by (simp add: GetAllCities_def calm_def cold_def cache_Get_def cache_Set_def
      store_GetAllCities_def Split.simps)

section \<open>The serving layer: writes\<close>



text \<open>
  Claim C3 (every write path stores a city under the same normalized key, so that two
  writes for one city in different letter cases update one row), at a reading for
  \<open>Moscow\<close> taken from the stream followed by a PUT for \<open>Moscow\<close>. The consumer
  saves the city as the message has it; the PUT handler lowers it. The table has two
  rows, \<open>Moscow\<close> and \<open>moscow\<close>, with either copy of \<^verbatim>\<open>Save\<close>; and a GET for
  \<open>Moscow\<close> after the reading alone finds no row, since it looks for \<open>moscow\<close>.
\<close>

theorem two_rows_for_one_city:
  "map city (fst (snd (UpdateWeather calm ''Moscow'' (Inr moscow_cloudy)
      (weather (ConsumeClaim Save [(moscow_msg, calm)] fresh)) cold)))
    = [''Moscow'', ''moscow''] \<and>
   map city (fst (snd (UpdateWeather calm ''Moscow'' (Inr moscow_cloudy)
      (weather (ConsumeClaim Save_001 [(moscow_msg, calm)] fresh)) cold)))
    = [''Moscow'', ''moscow''] \<and>
   fst (GetWeather calm ''Moscow'' (weather (ConsumeClaim Save [(moscow_msg, calm)] fresh)) cold)
    = sendError 404 msg_city_not_found (err_city_prefix @ ''moscow'' @ err_city_suffix)"
  by code_simp

section \<open>The cache only holds stored cities\<close>

text \<open>
  No handler and no consumer step breaks the coherence of the cache with the table,
  which holds at the start: an entry is set from a stored row under the key of its city,
  and rows are never deleted. So a city without a row has no entry under its key, in
  every state the system reaches.
\<close>

lemma CityKey_not_AllCitiesKey: "CityKey k \<noteq> AllCitiesKey"
  by (simp add: CityKey_def AllCitiesKey_def)

lemma CityKey_inject: "CityKey a = CityKey b \<Longrightarrow> a = b"
  by (simp add: CityKey_def)

lemma coherent_absent:
  assumes "coherent t c" and "find (\<lambda>r. city r = k) t = None"
  shows "entries c (CityKey k) = None"
proof (rule ccontr)
  assume "entries c (CityKey k) \<noteq> None"
  then have "CityKey k \<in> dom (entries c)" by auto
  with assms(1) have "CityKey k \<in> CityKey ` city ` set t"
    using CityKey_not_AllCitiesKey [of k] by (auto simp: coherent_def)
  then obtain r where "r \<in> set t" "city r = k"
    by (auto dest: CityKey_inject)
  with assms(2) show False by (auto simp: find_None_iff)
qed

lemma coherent_start: "coherent [] cold"
  by (simp add: coherent_def cold_def)

lemma GetByCity_stored: "GetByCity q t k = Inr d \<Longrightarrow> k \<in> city ` set t"
  by (auto simp: GetByCity_def find_Some_iff split: option.splits)

lemma coherent_GetWeather: "coherent t c \<Longrightarrow> coherent t (snd (GetWeather w var t c))"
  by (auto simp: GetWeather_def cache_Get_def cache_Set_def coherent_def Let_def
      dest!: GetByCity_stored split: sum.splits option.splits if_splits)

lemma coherent_GetAllCities: "coherent t c \<Longrightarrow> coherent t (snd (GetAllCities w t c))"
  by (auto simp: GetAllCities_def cache_Get_def cache_Set_def coherent_def Let_def
      split: sum.splits option.splits if_splits)

lemma coherent_upsert: "coherent t c \<Longrightarrow> coherent (upsert new t) c"
  using upsert_cities [of new t] by (auto simp: coherent_def)

lemma upsert_001_cities:
  "set (map city (upsert_001 new t)) = insert (city new) (set (map city t))"
  by (induction t) auto

lemma coherent_upsert_001: "coherent t c \<Longrightarrow> coherent (upsert_001 new t) c"
  using upsert_001_cities [of new t] by (auto simp: coherent_def)

lemma coherent_delete: "coherent t c \<Longrightarrow> coherent t (snd (cache_Delete e k c))"
  by (auto simp: coherent_def cache_Delete_def split: option.splits if_splits)

lemma UpdateWeather_saved:
  "db_err w = None \<Longrightarrow>
   snd (UpdateWeather w var (Inr d) t c)
     = (upsert (new_row (d\<lparr>City := ToLower var, Timestamp := clock w\<rparr>) (db_clock w)) t,
        snd (cache_Delete (del_all_err w) AllCitiesKey
              (snd (cache_Delete (del_city_err w) (CityKey (ToLower var)) c))))"
  by (simp add: UpdateWeather_def Save_def Let_def split: prod.splits)

lemma UpdateWeather_refused:
  "snd (UpdateWeather w var (Inl e) t c) = (t, c)"
  "db_err w = Some e' \<Longrightarrow> snd (UpdateWeather w var (Inr d) t c) = (t, c)"
  by (simp_all add: UpdateWeather_def Save_def Let_def)

lemma coherent_UpdateWeather:
  assumes "coherent t c"
  shows "coherent (fst (snd (UpdateWeather w var body t c)))
                  (snd (snd (UpdateWeather w var body t c)))"
proof (cases body)
  case (Inl e)
  with assms show ?thesis by (simp add: UpdateWeather_refused)
next
  case (Inr d)
  show ?thesis
  proof (cases "db_err w")
    case None
    from assms show ?thesis
      unfolding Inr UpdateWeather_saved [OF None] fst_conv snd_conv
      by (intro coherent_delete coherent_upsert)
  next
    case (Some e')
    with assms Inr show ?thesis by (simp add: UpdateWeather_refused)
  qed
qed

lemma coherent_consume_one:
  "coherent (weather s) c \<Longrightarrow> coherent (weather (consume_one Save d s)) c"
  "coherent (weather s) c \<Longrightarrow> coherent (weather (consume_one Save_001 d s)) c"
  by (auto simp: consume_one_def Save_def Save_001_def
      intro: coherent_upsert coherent_upsert_001 split: payload.splits option.splits)

end
